theory Spec2Isabelle
  imports Complex_Main "HOL-Library.Extended_Nat"
begin

section \<open>Data model of \<open>get_data.py\<close>\<close>

text \<open>
  Calendar dates are proleptic Gregorian ordinals, as Python's \<open>date.toordinal\<close> numbers
  them: \<open>date.min\<close> is 1 and \<open>date.max\<close> (9999-12-31) is 3652059. Temperatures,
  precipitation sums, thresholds and coordinates are floats in the source; they are only
  ever compared, never computed with, so they are modelled as reals (a NaN, which is
  neither above a threshold nor equal to -999, has no counterpart). Python's unbounded
  integers are \<open>int\<close>. The \<open>print\<close> of the two \<open>except\<close> blocks is left out.
\<close>

datatype py_error = OverflowError | ValueError | RequestError

definition valid_date :: "int \<Rightarrow> bool" where
  "valid_date d = (1 \<le> d \<and> d \<le> 3652059)"

definition timedelta :: "int \<Rightarrow> py_error + int" where
  \<comment> \<open>\<open>timedelta(days=n)\<close>: the day count is limited to 999999999 in absolute value.\<close>
  "timedelta n = (if - 999999999 \<le> n \<and> n \<le> 999999999 then Inr n else Inl OverflowError)"

definition date_add :: "int \<Rightarrow> int \<Rightarrow> py_error + int" where
  \<comment> \<open>\<open>d + timedelta(days=n)\<close>: raises when the result leaves \<open>date.min .. date.max\<close>.\<close>
  "date_add d n = (if valid_date (d + n) then Inr (d + n) else Inl OverflowError)"

definition date_plus_days :: "int \<Rightarrow> int \<Rightarrow> py_error + int" where
  \<comment> \<open>\<open>d + timedelta(days=n)\<close> as one expression: the timedelta is built first.\<close>
  "date_plus_days d n = (case timedelta n of Inl e \<Rightarrow> Inl e | Inr k \<Rightarrow> date_add d k)"

text \<open>
  A \<open>DataFrame\<close> with the columns \<open>date\<close>, \<open>temperature_2m_max\<close> and \<open>precipitation_sum\<close>
  is the list of its rows; \<open>df.empty\<close> is \<open>df = []\<close> (both \<open>pd.DataFrame()\<close> and a frame
  built from three empty columns are empty).
\<close>

record hist_row =
  date :: string
  temperature_2m_max :: real
  precipitation_sum :: real

type_synonym dataframe = "hist_row list"

text \<open>
  The parsed JSON answer of the NASA POWER service. Python dictionaries keep insertion
  order, which \<open>items()\<close> follows, so a dictionary is an association list and
  \<open>d.get(k, default)\<close> is a lookup with \<open>map_of\<close>.
\<close>

record power_parameter =
  T2M_MAX :: "(string \<times> real) list option"
  PRECTOTCORR :: "(string \<times> real) list option"

datatype http_result =
    RequestFailed
      \<comment> \<open>\<open>requests.get\<close>, \<open>raise_for_status\<close> or \<open>response.json()\<close> raised, or the
          payload has not the shape that lines 48--53 read\<close>
  | Json "power_parameter option"
      \<comment> \<open>\<open>None\<close>: "properties" or "parameter" is not in the payload\<close>

section \<open>\<open>get_historical_data_for_event\<close>\<close>

text \<open>
  Lines 56--65: the loop over \<open>temp_data.items()\<close> appending to the three lists
  \<open>dates\<close>, \<open>temps\<close> and \<open>precips\<close>.
\<close>

fun collect_rows ::
  "(string \<times> real) list \<Rightarrow> (string \<times> real) list \<Rightarrow>
   string list \<times> real list \<times> real list \<Rightarrow> string list \<times> real list \<times> real list" where
  "collect_rows [] precip_data acc = acc"
| "collect_rows ((date_str, temp) # rest) precip_data (dates, temps, precips) =
     (if temp \<noteq> - 999 then
        (let precip = (case map_of precip_data date_str of Some p \<Rightarrow> p | None \<Rightarrow> 0)
         in collect_rows rest precip_data
              (dates @ [date_str], temps @ [temp],
               precips @ [if precip \<noteq> - 999 then precip else 0]))
      else collect_rows rest precip_data (dates, temps, precips))"

definition make_dataframe ::
  "string list \<Rightarrow> real list \<Rightarrow> real list \<Rightarrow> py_error + dataframe" where
  \<comment> \<open>\<open>pd.DataFrame({...})\<close> from three columns: columns of different lengths raise.\<close>
  "make_dataframe dates temps precips =
     (if length temps = length dates \<and> length precips = length dates then
        Inr (map (\<lambda>(d, t, p). \<lparr>date = d, temperature_2m_max = t, precipitation_sum = p\<rparr>)
               (zip dates (zip temps precips)))
      else Inl ValueError)"

definition historical_data_try :: "http_result \<Rightarrow> py_error + dataframe" where
  \<comment> \<open>The body of the \<open>try\<close> block, lines 43--73, from the answer of the request on.\<close>
  "historical_data_try response =
     (case response of
        RequestFailed \<Rightarrow> Inl RequestError
      | Json None \<Rightarrow> Inr []
      | Json (Some parameter) \<Rightarrow>
          (let temp_data = (case T2M_MAX parameter of Some d \<Rightarrow> d | None \<Rightarrow> []);
               precip_data = (case PRECTOTCORR parameter of Some d \<Rightarrow> d | None \<Rightarrow> [])
           in case collect_rows temp_data precip_data ([], [], []) of
                (dates, temps, precips) \<Rightarrow> make_dataframe dates temps precips))"

definition historical_data :: "http_result \<Rightarrow> dataframe" where
  \<comment> \<open>\<open>except Exception\<close>, lines 75--77: any exception becomes the empty frame.\<close>
  "historical_data response =
     (case historical_data_try response of Inl e \<Rightarrow> [] | Inr df \<Rightarrow> df)"

text \<open>
  A data source answers a request for a location and a date range with a frame, and may
  read and change a hidden state \<open>'w\<close> (the network, the clock). The request itself
  (URL, parameters, the year range taken from \<open>datetime.now()\<close>) and the HTTP exchange
  are the parameter \<open>http_get\<close>.
\<close>

type_synonym 'w source = "'w \<Rightarrow> real \<Rightarrow> real \<Rightarrow> int \<Rightarrow> int \<Rightarrow> dataframe \<times> 'w"

definition get_historical_data_for_event ::
  "('w \<Rightarrow> real \<Rightarrow> real \<Rightarrow> int \<Rightarrow> int \<Rightarrow> http_result \<times> 'w) \<Rightarrow> 'w source" where
  "get_historical_data_for_event http_get w latitude longitude event_start event_end =
     (case http_get w latitude longitude event_start event_end of
        (response, w') \<Rightarrow> (historical_data response, w'))"

section \<open>\<open>find_best_dates\<close>\<close>

text \<open>Lines 197--200: a comparison of a column is a column of booleans, and \<open>.sum()\<close>
  counts its \<open>True\<close> entries.\<close>

definition series_gt :: "real list \<Rightarrow> real \<Rightarrow> bool list" where
  "series_gt column thresh = map (\<lambda>x. x > thresh) column"

definition bool_sum :: "bool list \<Rightarrow> nat" where
  "bool_sum bs = sum_list (map (\<lambda>b. if b then 1 else 0) bs)"

definition risk_score :: "dataframe \<Rightarrow> real \<Rightarrow> real \<Rightarrow> nat" where
  "risk_score candidate_df hot_thresh rain_thresh =
     (let hot_days = bool_sum (series_gt (map temperature_2m_max candidate_df) hot_thresh);
          rainy_days = bool_sum (series_gt (map precipitation_sum candidate_df) rain_thresh)
      in hot_days + rainy_days)"

text \<open>The local variables of the search loop; \<open>float('inf')\<close> is \<open>\<infinity>\<close>.\<close>

record search_state =
  best_score :: enat
  best_start :: "int option"
  iterations :: nat

definition candidate_window :: "int \<Rightarrow> int \<Rightarrow> int \<Rightarrow> py_error + int \<times> int" where
  \<comment> \<open>Lines 187--188.\<close>
  "candidate_window search_start event_duration start_offset =
     (case date_plus_days search_start start_offset of
        Inl e \<Rightarrow> Inl e
      | Inr candidate_start \<Rightarrow>
          (case date_plus_days candidate_start (event_duration - 1) of
             Inl e \<Rightarrow> Inl e
           | Inr candidate_end \<Rightarrow> Inr (candidate_start, candidate_end)))"

text \<open>
  Lines 185--204, the body of the \<open>for\<close> loop run over the offsets still to come. An
  exception leaves the loop at once; the fetches made so far stay made.
\<close>

fun candidate_loop ::
  "'w source \<Rightarrow> real \<Rightarrow> real \<Rightarrow> int \<Rightarrow> real \<Rightarrow> real \<Rightarrow> int \<Rightarrow>
   int list \<Rightarrow> search_state \<Rightarrow> 'w \<Rightarrow> (py_error + search_state) \<times> 'w" where
  "candidate_loop fetch latitude longitude search_start hot_thresh rain_thresh event_duration
     [] st w = (Inr st, w)"
| "candidate_loop fetch latitude longitude search_start hot_thresh rain_thresh event_duration
     (start_offset # rest) st w =
     (let st1 = st\<lparr>iterations := iterations st + 1\<rparr> in
      case candidate_window search_start event_duration start_offset of
        Inl e \<Rightarrow> (Inl e, w)
      | Inr (candidate_start, candidate_end) \<Rightarrow>
          (case fetch w latitude longitude candidate_start candidate_end of
             (candidate_df, w') \<Rightarrow>
               if candidate_df = [] then
                 candidate_loop fetch latitude longitude search_start hot_thresh rain_thresh
                   event_duration rest st1 w'
               else
                 (let score = risk_score candidate_df hot_thresh rain_thresh in
                  if enat score < best_score st1 then
                    candidate_loop fetch latitude longitude search_start hot_thresh
                      rain_thresh event_duration rest
                      (st1\<lparr>best_score := enat score, best_start := Some candidate_start\<rparr>) w'
                  else
                    candidate_loop fetch latitude longitude search_start hot_thresh
                      rain_thresh event_duration rest st1 w')))"

definition clamp_search_end :: "int \<Rightarrow> int \<Rightarrow> py_error + int" where
  \<comment> \<open>Lines 168--171.\<close>
  "clamp_search_end search_start search_end =
     (let max_search_days = 90;
          search_days = search_end - search_start
      in if search_days > max_search_days then date_plus_days search_start max_search_days
         else Inr search_end)"

definition candidate_offsets :: "int \<Rightarrow> int \<Rightarrow> int \<Rightarrow> int list" where
  \<comment> \<open>Line 185: \<open>range(0, min((search_end - search_start).days - event_duration + 1,
      max_iterations))\<close>, with \<open>max_iterations = 50\<close>.\<close>
  "candidate_offsets search_start search_end event_duration =
     [0 .. min (search_end - search_start - event_duration + 1) 50 - 1]"

definition initial_state :: search_state where
  "initial_state = \<lparr>best_score = \<infinity>, best_start = None, iterations = 0\<rparr>"

definition find_best_dates_try ::
  "'w source \<Rightarrow> 'w \<Rightarrow> real \<Rightarrow> real \<Rightarrow> int \<Rightarrow> int \<Rightarrow> real \<Rightarrow> real \<Rightarrow> int \<Rightarrow>
   (py_error + int option \<times> int option) \<times> 'w" where
  \<comment> \<open>The body of the \<open>try\<close> block, lines 167--210. A \<open>date\<close> is always true, so
      \<open>if best_start:\<close> asks whether a best start was recorded.\<close>
  "find_best_dates_try fetch w latitude longitude search_start search_end hot_thresh
     rain_thresh event_duration =
     (case clamp_search_end search_start search_end of
        Inl e \<Rightarrow> (Inl e, w)
      | Inr search_end' \<Rightarrow>
          (case fetch w latitude longitude search_start search_end' of
             (hist_df, w1) \<Rightarrow>
               if hist_df = [] then (Inr (None, None), w1)
               else
                 (case candidate_loop fetch latitude longitude search_start hot_thresh
                         rain_thresh event_duration
                         (candidate_offsets search_start search_end' event_duration)
                         initial_state w1 of
                    (Inl e, w2) \<Rightarrow> (Inl e, w2)
                  | (Inr st, w2) \<Rightarrow>
                      (case best_start st of
                         Some bs \<Rightarrow>
                           (case date_plus_days bs (event_duration - 1) of
                              Inl e \<Rightarrow> (Inl e, w2)
                            | Inr best_end \<Rightarrow> (Inr (Some bs, Some best_end), w2))
                       | None \<Rightarrow> (Inr (None, None), w2)))))"

definition find_best_dates ::
  "'w source \<Rightarrow> 'w \<Rightarrow> real \<Rightarrow> real \<Rightarrow> int \<Rightarrow> int \<Rightarrow> real \<Rightarrow> real \<Rightarrow> int \<Rightarrow>
   (int option \<times> int option) \<times> 'w" where
  \<comment> \<open>\<open>except Exception\<close>, lines 212--214: any exception becomes \<open>(None, None)\<close>.\<close>
  "find_best_dates fetch w latitude longitude search_start search_end hot_thresh
     rain_thresh event_duration =
     (case find_best_dates_try fetch w latitude longitude search_start search_end hot_thresh
             rain_thresh event_duration of
        (Inl e, w') \<Rightarrow> ((None, None), w')
      | (Inr result, w') \<Rightarrow> (result, w'))"

text \<open>
  Two ways to build a source for stating properties: a stub that answers from a fixed
  table and has no state of its own, and a wrapper that records every request made to
  the source it wraps.
\<close>

definition stub_source :: "(real \<Rightarrow> real \<Rightarrow> int \<Rightarrow> int \<Rightarrow> dataframe) \<Rightarrow> 'w source" where
  "stub_source table w latitude longitude a b = (table latitude longitude a b, w)"

type_synonym call = "real \<times> real \<times> int \<times> int"

definition logged :: "'w source \<Rightarrow> ('w \<times> call list) source" where
  "logged fetch wl latitude longitude a b =
     (case wl of (w, calls) \<Rightarrow>
        (case fetch w latitude longitude a b of
           (df, w') \<Rightarrow> (df, (w', calls @ [(latitude, longitude, a, b)]))))"

text \<open>
  One pass of the loop body on the local variables, given the frame fetched for the
  candidate (lines 186 and 193--204); \<open>candidate_loop_step\<close> below shows that the loop
  does exactly this on every pass.
\<close>

definition update_best ::
  "real \<Rightarrow> real \<Rightarrow> search_state \<Rightarrow> int \<Rightarrow> dataframe \<Rightarrow> search_state" where
  "update_best hot_thresh rain_thresh st candidate_start candidate_df =
     (let st1 = st\<lparr>iterations := iterations st + 1\<rparr> in
      if candidate_df = [] then st1
      else if enat (risk_score candidate_df hot_thresh rain_thresh) < best_score st1
        then st1\<lparr>best_score := enat (risk_score candidate_df hot_thresh rain_thresh),
                 best_start := Some candidate_start\<rparr>
        else st1)"

text \<open>Rows and tables of the examples: one hot day, one rainy day, and sources that
  answer with them.\<close>

definition hot_row :: hist_row where
  "hot_row = \<lparr>date = ''20200101'', temperature_2m_max = 35, precipitation_sum = 0\<rparr>"

definition one_row :: "real \<Rightarrow> real \<Rightarrow> int \<Rightarrow> int \<Rightarrow> dataframe" where
  "one_row la lo a b = [hot_row]"

definition no_data :: "real \<Rightarrow> real \<Rightarrow> int \<Rightarrow> int \<Rightarrow> dataframe" where
  "no_data la lo a b = []"

definition gap_table :: "real \<Rightarrow> real \<Rightarrow> int \<Rightarrow> int \<Rightarrow> dataframe" where
  "gap_table la lo a b = (if a = 730000 \<and> b = 730000 then [] else [hot_row])"

definition rainy_row :: hist_row where
  "rainy_row = \<lparr>date = ''20200102'', temperature_2m_max = 20, precipitation_sum = 25\<rparr>"

definition tie_table :: "real \<Rightarrow> real \<Rightarrow> int \<Rightarrow> int \<Rightarrow> dataframe" where
  "tie_table la lo a b =
     (if a = 730003 \<or> a = 730007 then [hot_row, rainy_row]
      else [hot_row, rainy_row, hot_row])"

section \<open>Basic facts\<close>

lemma logged_apply:
  "logged fetch (w, calls) la lo a b =
     (fst (fetch w la lo a b), (snd (fetch w la lo a b), calls @ [(la, lo, a, b)]))"
  by (simp add: logged_def split: prod.splits)

lemma stub_source_apply: "stub_source table w la lo a b = (table la lo a b, w)"
  by (simp add: stub_source_def)

lemma candidate_loop_step:
  "candidate_loop fetch la lo ss hot rain dur (off # rest) st w =
     (case candidate_window ss dur off of
        Inl e \<Rightarrow> (Inl e, w)
      | Inr (a, b) \<Rightarrow>
          (case fetch w la lo a b of
             (df, w1) \<Rightarrow> candidate_loop fetch la lo ss hot rain dur rest
                           (update_best hot rain st a df) w1))"
  by (simp add: update_best_def Let_def split: sum.splits prod.splits)

declare candidate_loop.simps(2) [simp del]

lemma date_plus_days_Inr: "date_plus_days d n = Inr x \<Longrightarrow> x = d + n \<and> valid_date x"
  by (auto simp: date_plus_days_def timedelta_def date_add_def split: if_splits)

lemma date_plus_days_ok:
  "valid_date (d + n) \<Longrightarrow> - 999999999 \<le> n \<Longrightarrow> n \<le> 999999999 \<Longrightarrow>
   date_plus_days d n = Inr (d + n)"
  by (simp add: date_plus_days_def timedelta_def date_add_def)

lemma candidate_window_Inr:
  "candidate_window ss dur off = Inr (a, b) \<Longrightarrow> a = ss + off \<and> b = ss + off + (dur - 1)"
  by (auto simp: candidate_window_def split: sum.splits dest!: date_plus_days_Inr)

lemma candidate_window_ok:
  assumes "valid_date ss" "valid_date (ss + off + (dur - 1))" "0 \<le> off" "1 \<le> dur"
  shows "candidate_window ss dur off = Inr (ss + off, ss + off + (dur - 1))"
proof -
  have "valid_date (ss + off)" and "off \<le> 999999999" and "dur - 1 \<le> 999999999"
    using assms by (auto simp: valid_date_def)
  then show ?thesis
    using assms by (simp add: candidate_window_def date_plus_days_ok)
qed

section \<open>Requests made by the search\<close>

lemma candidate_loop_logged_calls:
  "candidate_loop (logged fetch) la lo ss hot rain dur offs st (w, calls) = (r, (w', calls')) \<Longrightarrow>
   \<exists>new. calls' = calls @ new \<and> length new \<le> length offs \<and>
         (\<forall>c\<in>set new. \<exists>off\<in>set offs. c = (la, lo, ss + off, ss + off + (dur - 1)))"
proof (induction offs arbitrary: st w calls)
  case Nil
  then show ?case by simp
next
  case (Cons off rest)
  show ?case
  proof (cases "candidate_window ss dur off")
    case (Inl e)
    with Cons.prems show ?thesis by (simp add: candidate_loop_step)
  next
    case (Inr ab)
    obtain a b where ab: "ab = (a, b)" by (cases ab)
    from Inr ab have win: "a = ss + off" "b = ss + off + (dur - 1)"
      using candidate_window_Inr by blast+
    obtain df w1 where f: "fetch w la lo a b = (df, w1)" by (cases "fetch w la lo a b")
    have "candidate_loop (logged fetch) la lo ss hot rain dur rest (update_best hot rain st a df)
            (w1, calls @ [(la, lo, a, b)]) = (r, (w', calls'))"
      using Cons.prems Inr ab f by (simp add: candidate_loop_step logged_apply)
    from Cons.IH[OF this] obtain new where
      new: "calls' = (calls @ [(la, lo, a, b)]) @ new" "length new \<le> length rest"
        "\<forall>c\<in>set new. \<exists>off\<in>set rest. c = (la, lo, ss + off, ss + off + (dur - 1))"
      by blast
    have "calls' = calls @ ((la, lo, a, b) # new)" using new(1) by simp
    moreover have "length ((la, lo, a, b) # new) \<le> length (off # rest)" using new(2) by simp
    moreover have "\<forall>c\<in>set ((la, lo, a, b) # new).
        \<exists>k\<in>set (off # rest). c = (la, lo, ss + k, ss + k + (dur - 1))"
      using new(3) win by auto
    ultimately show ?thesis by blast
  qed
qed

lemma candidate_loop_logged_all:
  "(\<forall>off\<in>set offs. candidate_window ss dur off = Inr (ss + off, ss + off + (dur - 1))) \<Longrightarrow>
   \<exists>st' w'. candidate_loop (logged fetch) la lo ss hot rain dur offs st (w, calls) =
     (Inr st', (w', calls @ map (\<lambda>off. (la, lo, ss + off, ss + off + (dur - 1))) offs))"
proof (induction offs arbitrary: st w calls)
  case Nil
  show ?case by simp
next
  case (Cons off rest)
  have win: "candidate_window ss dur off = Inr (ss + off, ss + off + (dur - 1))"
    using Cons.prems by simp
  obtain df w1 where f: "fetch w la lo (ss + off) (ss + off + (dur - 1)) = (df, w1)"
    by (cases "fetch w la lo (ss + off) (ss + off + (dur - 1))")
  have "\<forall>off\<in>set rest. candidate_window ss dur off = Inr (ss + off, ss + off + (dur - 1))"
    using Cons.prems by simp
  from Cons.IH[OF this, of "update_best hot rain st (ss + off) df" w1
      "calls @ [(la, lo, ss + off, ss + off + (dur - 1))]"]
  show ?case
    by (simp add: candidate_loop_step win logged_apply f)
qed

lemma candidate_loop_same_answers:
  assumes "\<And>w1 w2 la lo a b. fst (fetch1 w1 la lo a b) = fst (fetch2 w2 la lo a b)"
  shows "fst (candidate_loop fetch1 la lo ss hot rain dur offs st w1) =
         fst (candidate_loop fetch2 la lo ss hot rain dur offs st w2)"
proof (induction offs arbitrary: st w1 w2)
  case Nil
  show ?case by simp
next
  case (Cons off rest)
  show ?case
  proof (cases "candidate_window ss dur off")
    case (Inl e)
    then show ?thesis by (simp add: candidate_loop_step)
  next
    case (Inr ab)
    obtain a b where ab: "ab = (a, b)" by (cases ab)
    obtain df1 v1 where f1: "fetch1 w1 la lo a b = (df1, v1)" by (cases "fetch1 w1 la lo a b")
    obtain df2 v2 where f2: "fetch2 w2 la lo a b = (df2, v2)" by (cases "fetch2 w2 la lo a b")
    have "df1 = df2" using assms[of w1 la lo a b w2] f1 f2 by simp
    then show ?thesis
      using Cons.IH[of "update_best hot rain st a df1" v1 v2]
      by (simp add: candidate_loop_step Inr ab f1 f2)
  qed
qed

lemma clamp_search_end_Inr:
  assumes "clamp_search_end ss se = Inr se'"
  shows "se' = (if se - ss > 90 then ss + 90 else se)"
  using assms by (auto simp: clamp_search_end_def dest!: date_plus_days_Inr split: if_splits)

lemma clamp_search_end_valid:
  assumes "valid_date ss" "valid_date se"
  shows "clamp_search_end ss se = Inr (if se - ss > 90 then ss + 90 else se)"
proof (cases "se - ss > 90")
  case True
  then have "valid_date (ss + 90)" using assms by (simp add: valid_date_def)
  then show ?thesis using True by (simp add: clamp_search_end_def date_plus_days_ok)
next
  case False
  then show ?thesis by (simp add: clamp_search_end_def)
qed

lemma length_candidate_offsets:
  "length (candidate_offsets ss se dur) = nat (min (se - ss - dur + 1) 50)"
  by (simp add: candidate_offsets_def)

lemma set_candidate_offsets:
  "set (candidate_offsets ss se dur) = {k. 0 \<le> k \<and> k < 50 \<and> k \<le> se - ss - dur}"
  by (auto simp: candidate_offsets_def)

lemma find_best_dates_shape:
  "fst (find_best_dates fetch w la lo ss se hot rain dur) = (None, None) \<or>
   (\<exists>bs. fst (find_best_dates fetch w la lo ss se hot rain dur) = (Some bs, Some (bs + (dur - 1))))"
  by (auto simp: find_best_dates_def find_best_dates_try_def
      split: sum.splits prod.splits if_splits option.splits dest!: date_plus_days_Inr)

lemma find_best_dates_logged_calls:
  "\<exists>new. snd (snd (find_best_dates (logged fetch) (w, calls) la lo ss se hot rain dur)) = calls @ new
     \<and> (case clamp_search_end ss se of
          Inl e \<Rightarrow> new = []
        | Inr se' \<Rightarrow> \<exists>cands. new = (la, lo, ss, se') # cands
             \<and> length cands \<le> length (candidate_offsets ss se' dur)
             \<and> (\<forall>c\<in>set cands. \<exists>off\<in>set (candidate_offsets ss se' dur).
                   c = (la, lo, ss + off, ss + off + (dur - 1))))"
proof (cases "clamp_search_end ss se")
  case (Inl e)
  then show ?thesis by (simp add: find_best_dates_def find_best_dates_try_def)
next
  case (Inr se')
  let ?calls1 = "calls @ [(la, lo, ss, se')]"
  let ?w1 = "snd (fetch w la lo ss se')"
  show ?thesis
  proof (cases "fst (fetch w la lo ss se') = []")
    case True
    then show ?thesis
      using Inr by (simp add: find_best_dates_def find_best_dates_try_def logged_apply)
  next
    case False
    obtain r w2 calls2 where loop:
      "candidate_loop (logged fetch) la lo ss hot rain dur (candidate_offsets ss se' dur)
         initial_state (?w1, ?calls1) = (r, (w2, calls2))"
      by (metis surj_pair)
    from candidate_loop_logged_calls[OF loop] obtain cands where
      cands: "calls2 = ?calls1 @ cands" "length cands \<le> length (candidate_offsets ss se' dur)"
        "\<forall>c\<in>set cands. \<exists>off\<in>set (candidate_offsets ss se' dur).
            c = (la, lo, ss + off, ss + off + (dur - 1))"
      by blast
    have "snd (snd (find_best_dates (logged fetch) (w, calls) la lo ss se hot rain dur)) = calls2"
      using Inr False loop
      by (simp add: find_best_dates_def find_best_dates_try_def logged_apply
          split: sum.splits option.splits)
    then show ?thesis using Inr cands by simp
  qed
qed

section \<open>The risk score\<close>

lemma bool_sum_series_gt:
  "bool_sum (series_gt (map f df) t) = length (filter (\<lambda>r. f r > t) df)"
  by (induction df) (simp_all add: bool_sum_def series_gt_def)

text \<open>
  Claim C7. The risk score of a frame is the number of rows whose maximum temperature
  is strictly above the hot threshold plus the number of rows whose precipitation is
  strictly above the rain threshold; it is a natural number of at most twice the number
  of rows, and a row whose values equal the thresholds counts for nothing.
\<close>

theorem risk_score_counts:
  "risk_score df hot rain =
     length (filter (\<lambda>r. temperature_2m_max r > hot) df) +
     length (filter (\<lambda>r. precipitation_sum r > rain) df)
   \<and> risk_score df hot rain \<le> 2 * length df
   \<and> risk_score [r] (temperature_2m_max r) (precipitation_sum r) = 0"
proof -
  have eq: "risk_score df hot rain =
     length (filter (\<lambda>r. temperature_2m_max r > hot) df) +
     length (filter (\<lambda>r. precipitation_sum r > rain) df)" for df hot rain
    by (simp add: risk_score_def bool_sum_series_gt)
  have "length (filter (\<lambda>r. temperature_2m_max r > hot) df) \<le> length df"
    and "length (filter (\<lambda>r. precipitation_sum r > rain) df) \<le> length df"
    by (rule length_filter_le)+
  then have "risk_score df hot rain \<le> 2 * length df"
    unfolding eq by linarith
  moreover have "risk_score [r] (temperature_2m_max r) (precipitation_sum r) = 0"
    by (simp add: eq)
  ultimately show ?thesis using eq by blast
qed

text \<open>Three days, of which two are above 32 degrees and one is above 10 mm; the day at
  exactly 32 degrees and 10 mm counts for neither.\<close>

lemma risk_score_example:
  "risk_score
     [\<lparr>date = ''20200101'', temperature_2m_max = 35, precipitation_sum = 0\<rparr>,
      \<lparr>date = ''20200102'', temperature_2m_max = 32, precipitation_sum = 10\<rparr>,
      \<lparr>date = ''20200103'', temperature_2m_max = 33, precipitation_sum = 12\<rparr>] 32 10 = 3"
  by (simp add: risk_score_def bool_sum_def series_gt_def)

section \<open>Sentinel filtering in the data source\<close>

lemma collect_rows_append:
  "collect_rows temp_data precip_data (dates, temps, precips) =
     (dates @ map fst (filter (\<lambda>(d, t). t \<noteq> - 999) temp_data),
      temps @ map snd (filter (\<lambda>(d, t). t \<noteq> - 999) temp_data),
      precips @
        map (\<lambda>(d, t). case map_of precip_data d of
                         None \<Rightarrow> 0
                       | Some p \<Rightarrow> if p = - 999 then 0 else p)
          (filter (\<lambda>(d, t). t \<noteq> - 999) temp_data))"
proof (induction temp_data arbitrary: dates temps precips)
  case Nil
  show ?case by simp
next
  case (Cons x rest)
  obtain d t where x: "x = (d, t)" by (cases x)
  show ?case
    by (cases "map_of precip_data d") (simp_all add: x Cons.IH)
qed

lemma make_dataframe_maps:
  "make_dataframe (map fst xs) (map snd xs) (map (\<lambda>(d, t). g d) xs) =
     Inr (map (\<lambda>(d, t). \<lparr>date = d, temperature_2m_max = t, precipitation_sum = g d\<rparr>) xs)"
  unfolding make_dataframe_def
  by (induction xs) auto

text \<open>
  Claim C8. \<open>get_historical_data_for_event\<close> answers a failed request (transport, HTTP
  status or JSON parsing) and a payload without parameters with the empty frame instead
  of raising. Otherwise its rows are, in the order of the temperature channel, exactly
  the dates whose temperature is not the sentinel -999: a date with temperature -999 has
  no row, and a kept date has precipitation 0 when its precipitation value is absent or
  is -999, and its precipitation value otherwise.
\<close>

theorem historical_data_sentinels:
  "historical_data RequestFailed = []
   \<and> historical_data (Json None) = []
   \<and> historical_data (Json (Some parameter)) =
       map (\<lambda>(d, t). \<lparr>date = d, temperature_2m_max = t,
              precipitation_sum =
                (case map_of (case PRECTOTCORR parameter of Some pd \<Rightarrow> pd | None \<Rightarrow> []) d of
                   None \<Rightarrow> 0
                 | Some p \<Rightarrow> if p = - 999 then 0 else p)\<rparr>)
         (filter (\<lambda>(d, t). t \<noteq> - 999)
            (case T2M_MAX parameter of Some td \<Rightarrow> td | None \<Rightarrow> []))
   \<and> fst (get_historical_data_for_event http_get w la lo a b) =
       historical_data (fst (http_get w la lo a b))"
proof -
  have "historical_data RequestFailed = []" and "historical_data (Json None) = []"
    by (simp_all add: historical_data_def historical_data_try_def)
  moreover have "historical_data (Json (Some parameter)) =
       map (\<lambda>(d, t). \<lparr>date = d, temperature_2m_max = t,
              precipitation_sum =
                (case map_of (case PRECTOTCORR parameter of Some pd \<Rightarrow> pd | None \<Rightarrow> []) d of
                   None \<Rightarrow> 0
                 | Some p \<Rightarrow> if p = - 999 then 0 else p)\<rparr>)
         (filter (\<lambda>(d, t). t \<noteq> - 999)
            (case T2M_MAX parameter of Some td \<Rightarrow> td | None \<Rightarrow> []))"
    by (simp add: historical_data_def historical_data_try_def collect_rows_append
        make_dataframe_maps)
  moreover have "fst (get_historical_data_for_event http_get w la lo a b) =
       historical_data (fst (http_get w la lo a b))"
    by (simp add: get_historical_data_for_event_def split: prod.splits)
  ultimately show ?thesis by simp
qed

text \<open>The first date has no temperature and is dropped with its precipitation; the
  second has no valid precipitation and the third none at all, and both get 0.\<close>

lemma historical_data_example:
  "historical_data (Json (Some
     \<lparr>T2M_MAX = Some [(''20200101'', - 999), (''20200102'', 30), (''20200103'', 31),
                       (''20200104'', 29)],
      PRECTOTCORR = Some [(''20200101'', 4), (''20200102'', - 999), (''20200104'', 7)]\<rparr>)) =
   [\<lparr>date = ''20200102'', temperature_2m_max = 30, precipitation_sum = 0\<rparr>,
    \<lparr>date = ''20200103'', temperature_2m_max = 31, precipitation_sum = 0\<rparr>,
    \<lparr>date = ''20200104'', temperature_2m_max = 29, precipitation_sum = 7\<rparr>]"
  by (simp add: historical_data_def historical_data_try_def make_dataframe_def)

section \<open>Running the search on concrete inputs\<close>

lemma upto_from_0: "[0..n] = (if 0 \<le> n then 0 # [1..n] else [])"
  by (simp add: upto_rec1)

lemma upto_from_1: "[1..n] = (if 1 \<le> n then 1 # [2..n] else [])"
  by (simp add: upto_rec1)

lemmas run_simps =
  find_best_dates_def find_best_dates_try_def clamp_search_end_def candidate_offsets_def
  stub_source_apply logged_apply candidate_loop_step candidate_window_def date_plus_days_def
  timedelta_def date_add_def valid_date_def initial_state_def update_best_def risk_score_def
  bool_sum_def series_gt_def upto_from_0 upto_from_1 hot_row_def

lemma offsets_windows_ok:
  assumes "valid_date ss" "valid_date se" "1 \<le> dur"
  shows "\<forall>off\<in>set (candidate_offsets ss se dur).
           candidate_window ss dur off = Inr (ss + off, ss + off + (dur - 1))"
proof
  fix off assume "off \<in> set (candidate_offsets ss se dur)"
  then have off: "0 \<le> off" "off \<le> se - ss - dur" by (simp_all add: set_candidate_offsets)
  then have "valid_date (ss + off + (dur - 1))"
    using assms by (simp add: valid_date_def)
  then show "candidate_window ss dur off = Inr (ss + off, ss + off + (dur - 1))"
    using assms off by (simp add: candidate_window_ok)
qed

lemma find_best_dates_logged_calls_exact:
  assumes "valid_date ss" "valid_date se" "1 \<le> dur"
    and se': "se' = (if se - ss > 90 then ss + 90 else se)"
    and feasible: "fst (fetch w la lo ss se') \<noteq> []"
  shows "snd (snd (find_best_dates (logged fetch) (w, calls) la lo ss se hot rain dur)) =
         calls @ (la, lo, ss, se') #
           map (\<lambda>off. (la, lo, ss + off, ss + off + (dur - 1))) (candidate_offsets ss se' dur)"
proof -
  have clamp: "clamp_search_end ss se = Inr se'"
    using assms(1,2) se' clamp_search_end_valid by simp
  have "valid_date se'" using assms(1,2) se' by (auto simp: valid_date_def)
  from candidate_loop_logged_all[OF offsets_windows_ok[OF assms(1) this assms(3)],
      where fetch = fetch and la = la and lo = lo and hot = hot and rain = rain
        and st = initial_state and w = "snd (fetch w la lo ss se')"
        and calls = "calls @ [(la, lo, ss, se')]"]
  obtain st' w' where
    "candidate_loop (logged fetch) la lo ss hot rain dur (candidate_offsets ss se' dur)
       initial_state (snd (fetch w la lo ss se'), calls @ [(la, lo, ss, se')]) =
     (Inr st', (w', (calls @ [(la, lo, ss, se')]) @
        map (\<lambda>off. (la, lo, ss + off, ss + off + (dur - 1))) (candidate_offsets ss se' dur)))"
    by blast
  then show ?thesis
    using clamp feasible
    by (simp add: find_best_dates_def find_best_dates_try_def logged_apply
        split: sum.splits option.splits)
qed

section \<open>Totality\<close>

text \<open>
  Claim C10. \<open>find_best_dates\<close> returns a pair for every input and every source: either
  \<open>(None, None)\<close>, or \<open>(best_start, best_end)\<close> with \<open>best_end\<close> equal to \<open>best_start\<close>
  plus \<open>event_duration - 1\<close> days. Whenever the body of its \<open>try\<close> block raises, the
  caller gets \<open>(None, None)\<close>, and the requests made until then stay made.
\<close>

theorem find_best_dates_total:
  "(fst (find_best_dates fetch w la lo ss se hot rain dur) = (None, None) \<or>
    (\<exists>bs. fst (find_best_dates fetch w la lo ss se hot rain dur) =
            (Some bs, Some (bs + (dur - 1)))))
   \<and> (\<forall>e w'. find_best_dates_try fetch w la lo ss se hot rain dur = (Inl e, w') \<longrightarrow>
         find_best_dates fetch w la lo ss se hot rain dur = ((None, None), w'))"
  using find_best_dates_shape[of fetch w la lo ss se hot rain dur]
  by (simp add: find_best_dates_def)

text \<open>
  An input on which the body raises: a search that starts on \<open>date.max\<close> with an event
  duration of -1 reaches offset 1, where \<open>search_start + timedelta(days=1)\<close> overflows.
\<close>

theorem find_best_dates_total_witness:
  "find_best_dates_try (stub_source one_row) () 0 0 3652059 3652059 30 10 (- 1) =
     (Inl OverflowError, ())
   \<and> find_best_dates (stub_source one_row) () 0 0 3652059 3652059 30 10 (- 1) =
     ((None, None), ())"
proof -
  have raised: "find_best_dates_try (stub_source one_row) () 0 0 3652059 3652059 30 10 (- 1) =
     (Inl OverflowError, ())"
    by (simp add: run_simps one_row_def)
  with find_best_dates_total[of "stub_source one_row" "()" 0 0 3652059 3652059 30 10 "- 1"]
  show ?thesis by blast
qed

section \<open>Empty frames\<close>

text \<open>
  Claim C6. When the feasibility fetch over the (possibly clamped) search range is
  empty, \<open>find_best_dates\<close> returns \<open>(None, None)\<close> and that fetch is the only request it
  makes. When the fetch for one candidate is empty, the loop goes on with the offsets
  that remain, with \<open>best_score\<close> and \<open>best_start\<close> as they were: the candidate is not
  scored, and only the iteration counter moves.
\<close>

theorem empty_feasibility_and_empty_candidate:
  "(clamp_search_end ss se = Inr se' \<and> fst (fetch w la lo ss se') = [] \<longrightarrow>
      find_best_dates (logged fetch) (w, []) la lo ss se hot rain dur =
        ((None, None), (snd (fetch w la lo ss se'), [(la, lo, ss, se')])))
   \<and> (candidate_window ss dur off = Inr (a, b) \<and> fst (fetch w la lo a b) = [] \<longrightarrow>
      candidate_loop fetch la lo ss hot rain dur (off # rest) st w =
        candidate_loop fetch la lo ss hot rain dur rest
          (st\<lparr>iterations := iterations st + 1\<rparr>) (snd (fetch w la lo a b)))"
proof -
  have "find_best_dates (logged fetch) (w, []) la lo ss se hot rain dur =
        ((None, None), (snd (fetch w la lo ss se'), [(la, lo, ss, se')]))"
    if "clamp_search_end ss se = Inr se'" "fst (fetch w la lo ss se') = []"
    using that by (simp add: find_best_dates_def find_best_dates_try_def logged_apply)
  moreover have "candidate_loop fetch la lo ss hot rain dur (off # rest) st w =
        candidate_loop fetch la lo ss hot rain dur rest
          (st\<lparr>iterations := iterations st + 1\<rparr>) (snd (fetch w la lo a b))"
    if "candidate_window ss dur off = Inr (a, b)" "fst (fetch w la lo a b) = []"
    using that by (cases "fetch w la lo a b") (simp add: candidate_loop_step update_best_def)
  ultimately show ?thesis by blast
qed

text \<open>
  With no data at all the search stops after one request. With no data for the window
  of offset 0 only, the window of offset 1 (score 1) is returned: offset 0 was not taken
  as a score of 0.
\<close>

theorem empty_feasibility_and_empty_candidate_witness:
  "find_best_dates (logged (stub_source no_data)) ((), []) 0 0 730000 730002 30 10 1 =
     ((None, None), ((), [(0, 0, 730000, 730002)]))
   \<and> candidate_loop (stub_source gap_table) 0 0 730000 30 10 1 [0, 1] initial_state () =
     candidate_loop (stub_source gap_table) 0 0 730000 30 10 1 [1]
       (initial_state\<lparr>iterations := iterations initial_state + 1\<rparr>) ()
   \<and> find_best_dates (logged (stub_source gap_table)) ((), []) 0 0 730000 730002 30 10 1 =
     ((Some 730001, Some 730001),
      ((), [(0, 0, 730000, 730002), (0, 0, 730000, 730000), (0, 0, 730001, 730001)]))"
proof -
  have c: "clamp_search_end 730000 730002 = Inr 730002"
    by (simp add: clamp_search_end_def)
  have e: "fst (stub_source no_data () 0 0 730000 730002) = []"
    by (simp add: stub_source_apply no_data_def)
  have win: "candidate_window 730000 1 0 = Inr (730000, 730000)"
    by (simp add: candidate_window_def date_plus_days_def timedelta_def date_add_def
        valid_date_def)
  have g: "fst (stub_source gap_table () 0 0 730000 730000) = []"
    by (simp add: stub_source_apply gap_table_def)
  have run: "find_best_dates (logged (stub_source gap_table)) ((), []) 0 0 730000 730002 30 10 1 =
     ((Some 730001, Some 730001),
      ((), [(0, 0, 730000, 730002), (0, 0, 730000, 730000), (0, 0, 730001, 730001)]))"
    by (simp add: run_simps gap_table_def)
  from empty_feasibility_and_empty_candidate[where ss = 730000 and se = 730002 and se' = 730002
      and fetch = "stub_source no_data" and w = "()" and la = 0 and lo = 0 and hot = 30
      and rain = 10 and dur = 1 and off = 0 and a = 730000 and b = 730000 and rest = "[1]"
      and st = initial_state]
    empty_feasibility_and_empty_candidate[where ss = 730000 and se = 730002 and se' = 730002
      and fetch = "stub_source gap_table" and w = "()" and la = 0 and lo = 0 and hot = 30
      and rain = 10 and dur = 1 and off = 0 and a = 730000 and b = 730000 and rest = "[1]"
      and st = initial_state]
    c e win g run
  show ?thesis by (simp add: stub_source_apply)
qed

section \<open>The bound on the requests\<close>

text \<open>
  Claim C5. The candidate loop runs over at most 50 offsets, so a call makes at most 51
  requests: the feasibility fetch and at most 50 candidate fetches. The bound is reached:
  with an event duration of 1 and a search range of at least 50 days (a 200-day range is
  one) whose feasibility fetch is not empty, exactly 51 requests are made.
\<close>

theorem at_most_51_requests:
  "length (candidate_offsets ss se' dur) \<le> 50
   \<and> length (snd (snd (find_best_dates (logged fetch) (w, []) la lo ss se hot rain dur))) \<le> 51
   \<and> (valid_date ss \<and> valid_date se \<and> 50 \<le> se - ss \<and>
        fst (fetch w la lo ss (if se - ss > 90 then ss + 90 else se)) \<noteq> [] \<longrightarrow>
        length (snd (snd (find_best_dates (logged fetch) (w, []) la lo ss se hot rain 1))) = 51)"
proof -
  have bound: "length (candidate_offsets ss x dur) \<le> 50" for x
    by (simp add: length_candidate_offsets)
  have "length (snd (snd (find_best_dates (logged fetch) (w, []) la lo ss se hot rain dur))) \<le> 51"
  proof (cases "clamp_search_end ss se")
    case (Inl e)
    then show ?thesis
      using find_best_dates_logged_calls[of fetch w "[]" la lo ss se hot rain dur] by auto
  next
    case (Inr x)
    from find_best_dates_logged_calls[of fetch w "[]" la lo ss se hot rain dur] Inr
    obtain cands where
      "snd (snd (find_best_dates (logged fetch) (w, []) la lo ss se hot rain dur)) =
         (la, lo, ss, x) # cands"
      "length cands \<le> length (candidate_offsets ss x dur)"
      by auto
    then show ?thesis using bound[of x] by simp
  qed
  moreover have
    "length (snd (snd (find_best_dates (logged fetch) (w, []) la lo ss se hot rain 1))) = 51"
    if h: "valid_date ss" "valid_date se" "50 \<le> se - ss"
      "fst (fetch w la lo ss (if se - ss > 90 then ss + 90 else se)) \<noteq> []"
  proof -
    have "(1::int) \<le> 1" by simp
    from find_best_dates_logged_calls_exact[where se' = "if se - ss > 90 then ss + 90 else se"
        and calls = "[]" and hot = hot and rain = rain and fetch = fetch and w = w
        and la = la and lo = lo and ss = ss and se = se and dur = 1] h this
    show ?thesis by (simp add: length_candidate_offsets)
  qed
  ultimately show ?thesis using bound by blast
qed

theorem at_most_51_requests_witness:
  "length (snd (snd (find_best_dates (logged (stub_source one_row)) ((), []) 0 0
      730000 730199 30 10 1))) = 51"
  using at_most_51_requests[where ss = 730000 and se = 730199 and fetch = "stub_source one_row"
      and w = "()" and la = 0 and lo = 0 and hot = 30 and rain = 10]
  by (simp add: valid_date_def stub_source_apply one_row_def)

section \<open>Clamping of the search range\<close>

text \<open>
  Claim C4. When \<open>search_end\<close> is more than 90 days after \<open>search_start\<close>, the search is
  the search over the range that ends at \<open>search_start + 90\<close>: the result and the requests
  are the same, the feasibility fetch asks for \<open>search_start .. search_start + 90\<close> (91
  calendar days), and every day of every candidate window requested lies in that range.
\<close>

theorem search_range_clamped:
  "valid_date ss \<and> valid_date se \<and> se - ss > 90 \<longrightarrow>
     find_best_dates fetch w la lo ss se hot rain dur =
       find_best_dates fetch w la lo ss (ss + 90) hot rain dur
     \<and> (\<exists>cands. snd (snd (find_best_dates (logged fetch) (w, []) la lo ss se hot rain dur)) =
           (la, lo, ss, ss + 90) # cands
         \<and> (\<forall>c\<in>set cands. \<exists>a b. c = (la, lo, a, b) \<and>
               (\<forall>d. a \<le> d \<and> d \<le> b \<longrightarrow> ss \<le> d \<and> d \<le> ss + 90)))"
proof
  assume h: "valid_date ss \<and> valid_date se \<and> se - ss > 90"
  then have v90: "valid_date (ss + 90)" by (simp add: valid_date_def)
  have c1: "clamp_search_end ss se = Inr (ss + 90)"
    using h clamp_search_end_valid[of ss se] by simp
  have c2: "clamp_search_end ss (ss + 90) = Inr (ss + 90)"
    by (simp add: clamp_search_end_def)
  have same: "find_best_dates fetch w la lo ss se hot rain dur =
       find_best_dates fetch w la lo ss (ss + 90) hot rain dur"
    by (simp add: find_best_dates_def find_best_dates_try_def c1 c2)
  from find_best_dates_logged_calls[of fetch w "[]" la lo ss se hot rain dur] c1
  obtain cands where cands:
    "snd (snd (find_best_dates (logged fetch) (w, []) la lo ss se hot rain dur)) =
       (la, lo, ss, ss + 90) # cands"
    "\<forall>c\<in>set cands. \<exists>off\<in>set (candidate_offsets ss (ss + 90) dur).
        c = (la, lo, ss + off, ss + off + (dur - 1))"
    by auto
  have "\<forall>c\<in>set cands. \<exists>a b. c = (la, lo, a, b) \<and>
               (\<forall>d. a \<le> d \<and> d \<le> b \<longrightarrow> ss \<le> d \<and> d \<le> ss + 90)"
  proof
    fix c assume "c \<in> set cands"
    with cands(2) obtain off where off: "off \<in> set (candidate_offsets ss (ss + 90) dur)"
      "c = (la, lo, ss + off, ss + off + (dur - 1))" by blast
    from off(1) have "0 \<le> off" "off \<le> 90 - dur" by (simp_all add: set_candidate_offsets)
    then have "\<forall>d. ss + off \<le> d \<and> d \<le> ss + off + (dur - 1) \<longrightarrow> ss \<le> d \<and> d \<le> ss + 90"
      by auto
    with off(2) show "\<exists>a b. c = (la, lo, a, b) \<and>
               (\<forall>d. a \<le> d \<and> d \<le> b \<longrightarrow> ss \<le> d \<and> d \<le> ss + 90)" by blast
  qed
  with same cands(1) show "find_best_dates fetch w la lo ss se hot rain dur =
       find_best_dates fetch w la lo ss (ss + 90) hot rain dur
     \<and> (\<exists>cands. snd (snd (find_best_dates (logged fetch) (w, []) la lo ss se hot rain dur)) =
           (la, lo, ss, ss + 90) # cands
         \<and> (\<forall>c\<in>set cands. \<exists>a b. c = (la, lo, a, b) \<and>
               (\<forall>d. a \<le> d \<and> d \<le> b \<longrightarrow> ss \<le> d \<and> d \<le> ss + 90)))"
    by blast
qed

theorem search_range_clamped_witness:
  "find_best_dates (logged (stub_source one_row)) ((), []) 0 0 730000 730199 30 10 89 =
     find_best_dates (logged (stub_source one_row)) ((), []) 0 0 730000 730090 30 10 89
   \<and> find_best_dates (logged (stub_source one_row)) ((), []) 0 0 730000 730199 30 10 89 =
     ((Some 730000, Some 730088),
      ((), [(0, 0, 730000, 730090), (0, 0, 730000, 730088), (0, 0, 730001, 730089)]))"
proof -
  have "find_best_dates (logged (stub_source one_row)) ((), []) 0 0 730000 730090 30 10 89 =
     ((Some 730000, Some 730088),
      ((), [(0, 0, 730000, 730090), (0, 0, 730000, 730088), (0, 0, 730001, 730089)]))"
    by (simp add: run_simps one_row_def)
  moreover have "valid_date 730000 \<and> valid_date 730199 \<and> 730199 - 730000 > (90::int)"
    by (simp add: valid_date_def)
  ultimately show ?thesis
    using search_range_clamped[where ss = 730000 and se = 730199
        and fetch = "logged (stub_source one_row)" and w = "((), [])" and la = 0 and lo = 0
        and hot = 30 and rain = 10 and dur = 89]
    by simp
qed

section \<open>Invalid input\<close>

text \<open>
  Claim C2 says that a call with \<open>event_duration < 1\<close> or \<open>search_start > search_end\<close> is
  reported as a precondition violation, distinguishable from "not found", before any
  fetch. The code has no such check. A call with the search range inverted makes the
  feasibility fetch and returns \<open>(None, None)\<close>, which is also what a search over a valid
  range without data returns; a call with an event duration of 0 fetches four times and
  returns a window that ends the day before it starts.
\<close>

theorem invalid_input_counterexample:
  "find_best_dates (logged (stub_source one_row)) ((), []) 0 0 730010 730005 30 10 1 =
     ((None, None), ((), [(0, 0, 730010, 730005)]))
   \<and> find_best_dates (logged (stub_source no_data)) ((), []) 0 0 730000 730010 30 10 1 =
     ((None, None), ((), [(0, 0, 730000, 730010)]))
   \<and> find_best_dates (logged (stub_source one_row)) ((), []) 0 0 730000 730002 30 10 0 =
     ((Some 730000, Some 729999),
      ((), [(0, 0, 730000, 730002), (0, 0, 730000, 729999), (0, 0, 730001, 730000),
            (0, 0, 730002, 730001)]))"
  by (simp add: run_simps one_row_def no_data_def)

text \<open>
  Claim C2 as amended. \<open>find_best_dates\<close> does not validate its input: for every call
  with \<open>event_duration < 1\<close> or \<open>search_start > search_end\<close> (on valid dates) the first
  thing it does is the feasibility fetch over the (possibly clamped) range, and it returns
  one of its ordinary results, \<open>(None, None)\<close> or a pair \<open>(best_start, best_start +
  (event_duration - 1))\<close>. With \<open>search_start > search_end\<close> and \<open>event_duration \<ge> 1\<close> the
  result is \<open>(None, None)\<close>, the value of "not found", after exactly that one fetch.
\<close>

theorem invalid_input_not_reported:
  "(dur < 1 \<or> ss > se) \<and> valid_date ss \<and> valid_date se \<longrightarrow>
     (\<exists>cands. snd (snd (find_best_dates (logged fetch) (w, []) la lo ss se hot rain dur)) =
        (la, lo, ss, if se - ss > 90 then ss + 90 else se) # cands)
     \<and> (fst (find_best_dates (logged fetch) (w, []) la lo ss se hot rain dur) = (None, None) \<or>
        (\<exists>bs. fst (find_best_dates (logged fetch) (w, []) la lo ss se hot rain dur) =
           (Some bs, Some (bs + (dur - 1)))))
     \<and> (ss > se \<and> 1 \<le> dur \<longrightarrow>
          fst (find_best_dates (logged fetch) (w, []) la lo ss se hot rain dur) = (None, None)
          \<and> snd (snd (find_best_dates (logged fetch) (w, []) la lo ss se hot rain dur)) =
              [(la, lo, ss, se)])"
proof
  assume h: "(dur < 1 \<or> ss > se) \<and> valid_date ss \<and> valid_date se"
  then have clamp: "clamp_search_end ss se = Inr (if se - ss > 90 then ss + 90 else se)"
    using clamp_search_end_valid by simp
  have first: "\<exists>cands. snd (snd (find_best_dates (logged fetch) (w, []) la lo ss se hot rain dur)) =
        (la, lo, ss, if se - ss > 90 then ss + 90 else se) # cands"
    using find_best_dates_logged_calls[of fetch w "[]" la lo ss se hot rain dur] clamp by auto
  have inverted: "fst (find_best_dates (logged fetch) (w, []) la lo ss se hot rain dur) = (None, None)
          \<and> snd (snd (find_best_dates (logged fetch) (w, []) la lo ss se hot rain dur)) =
              [(la, lo, ss, se)]" if "ss > se" "1 \<le> dur"
  proof -
    have "clamp_search_end ss se = Inr se" using that by (simp add: clamp_search_end_def)
    moreover have "candidate_offsets ss se dur = []"
      using that by (simp add: candidate_offsets_def)
    ultimately show ?thesis
      by (simp add: find_best_dates_def find_best_dates_try_def logged_apply initial_state_def)
  qed
  show "(\<exists>cands. snd (snd (find_best_dates (logged fetch) (w, []) la lo ss se hot rain dur)) =
        (la, lo, ss, if se - ss > 90 then ss + 90 else se) # cands)
     \<and> (fst (find_best_dates (logged fetch) (w, []) la lo ss se hot rain dur) = (None, None) \<or>
        (\<exists>bs. fst (find_best_dates (logged fetch) (w, []) la lo ss se hot rain dur) =
           (Some bs, Some (bs + (dur - 1)))))
     \<and> (ss > se \<and> 1 \<le> dur \<longrightarrow>
          fst (find_best_dates (logged fetch) (w, []) la lo ss se hot rain dur) = (None, None)
          \<and> snd (snd (find_best_dates (logged fetch) (w, []) la lo ss se hot rain dur)) =
              [(la, lo, ss, se)])"
    using first inverted find_best_dates_shape[of "logged fetch" "(w, [])" la lo ss se hot rain dur]
    by blast
qed

theorem invalid_input_not_reported_witness:
  "fst (find_best_dates (logged (stub_source one_row)) ((), []) 0 0 730020 730015 30 10 2) =
     (None, None)
   \<and> snd (snd (find_best_dates (logged (stub_source one_row)) ((), []) 0 0 730020 730015 30 10 2)) =
     [(0, 0, 730020, 730015)]"
  using invalid_input_not_reported[where ss = 730020 and se = 730015 and dur = 2
      and fetch = "stub_source one_row" and w = "()" and la = 0 and lo = 0 and hot = 30
      and rain = 10]
  by (simp add: valid_date_def)

section \<open>The number of candidates\<close>

text \<open>
  Claim C1 counts \<open>min(total_search_days - event_duration + 1, 50)\<close> candidates, where
  \<open>total_search_days\<close> is the inclusive length \<open>end - start + 1\<close> of the search range, so
  that a 5-day event in a 5-day range has exactly one candidate. Line 185 takes
  \<open>(search_end - search_start).days\<close>, one less, for the length: for an event duration of
  5 and the 5-day range \<open>search_end = search_start + 4\<close> its bound is \<open>4 - 5 + 1 = 0\<close>, no
  candidate is evaluated, and the result is \<open>(None, None)\<close> after the feasibility fetch
  alone, although the source has data for every window.
\<close>

theorem single_window_not_evaluated:
  "candidate_offsets 730000 730004 5 = []
   \<and> length (candidate_offsets 730000 730004 5) \<noteq> nat (min ((730004 - 730000 + 1) - 5 + 1) 50)
   \<and> one_row 0 0 730000 730004 \<noteq> []
   \<and> find_best_dates (logged (stub_source one_row)) ((), []) 0 0 730000 730004 30 10 5 =
       ((None, None), ((), [(0, 0, 730000, 730004)]))"
  by (simp add: run_simps one_row_def)

text \<open>
  What line 185 enumerates: on valid dates, for an event duration of at least 1 and a
  feasibility fetch that is not empty, the requests are the feasibility fetch followed by
  one fetch for each offset from 0 up to \<open>min((search_end - search_start).days -
  event_duration + 1, 50) - 1\<close>, the end being the clamped one. A 5-day event has exactly one
  candidate when \<open>search_end = search_start + 5\<close>, and that candidate is returned when its
  frame is not empty.
\<close>

lemma candidate_count:
  "valid_date ss \<and> valid_date se \<and> 1 \<le> dur \<and>
   se' = (if se - ss > 90 then ss + 90 else se) \<and> table la lo ss se' \<noteq> [] \<longrightarrow>
     length (candidate_offsets ss se' dur) = nat (min (se' - ss - dur + 1) 50)
     \<and> snd (snd (find_best_dates (logged (stub_source table)) (w, []) la lo ss se hot rain dur)) =
         (la, lo, ss, se') #
           map (\<lambda>off. (la, lo, ss + off, ss + off + (dur - 1))) (candidate_offsets ss se' dur)
     \<and> (dur = 5 \<and> se = ss + 5 \<and> table la lo ss (ss + 4) \<noteq> [] \<longrightarrow>
          fst (find_best_dates (logged (stub_source table)) (w, []) la lo ss se hot rain dur) =
            (Some ss, Some (ss + 4)))"
proof
  assume h: "valid_date ss \<and> valid_date se \<and> 1 \<le> dur \<and>
   se' = (if se - ss > 90 then ss + 90 else se) \<and> table la lo ss se' \<noteq> []"
  then have feasible: "fst (stub_source table w la lo ss se') \<noteq> []"
    unfolding stub_source_apply by (elim conjE) simp
  have calls: "snd (snd (find_best_dates (logged (stub_source table)) (w, []) la lo ss se hot rain dur)) =
         (la, lo, ss, se') #
           map (\<lambda>off. (la, lo, ss + off, ss + off + (dur - 1))) (candidate_offsets ss se' dur)"
    using find_best_dates_logged_calls_exact[where fetch = "stub_source table" and w = w
        and calls = "[]" and la = la and lo = lo and ss = ss and se = se and se' = se'
        and dur = dur and hot = hot and rain = rain] h feasible
    by simp
  have single: "fst (find_best_dates (logged (stub_source table)) (w, []) la lo ss se hot rain dur) =
            (Some ss, Some (ss + 4))"
    if s: "dur = 5" "se = ss + 5" "table la lo ss (ss + 4) \<noteq> []"
  proof -
    have se': "se' = ss + 5" using h s by simp
    have clamp: "clamp_search_end ss (ss + 5) = Inr (ss + 5)"
      by (simp add: clamp_search_end_def)
    have offs: "candidate_offsets ss (ss + 5) 5 = [0]"
      by (simp add: candidate_offsets_def upto_from_0)
    have "valid_date (ss + 4)" using h s by (auto simp: valid_date_def)
    then have win: "candidate_window ss 5 0 = Inr (ss, ss + 4)"
      and fin: "date_plus_days ss 4 = Inr (ss + 4)"
      using h candidate_window_ok[of ss 0 5] date_plus_days_ok[of ss 4] by simp_all
    show ?thesis
      using h s se'
      by (simp add: find_best_dates_def find_best_dates_try_def clamp offs logged_apply
          stub_source_apply candidate_loop_step win fin update_best_def initial_state_def)
  qed
  show "length (candidate_offsets ss se' dur) = nat (min (se' - ss - dur + 1) 50)
     \<and> snd (snd (find_best_dates (logged (stub_source table)) (w, []) la lo ss se hot rain dur)) =
         (la, lo, ss, se') #
           map (\<lambda>off. (la, lo, ss + off, ss + off + (dur - 1))) (candidate_offsets ss se' dur)
     \<and> (dur = 5 \<and> se = ss + 5 \<and> table la lo ss (ss + 4) \<noteq> [] \<longrightarrow>
          fst (find_best_dates (logged (stub_source table)) (w, []) la lo ss se hot rain dur) =
            (Some ss, Some (ss + 4)))"
    using calls single by (simp add: length_candidate_offsets)
qed

lemma candidate_count_example:
  "length (candidate_offsets 730000 730005 5) = 1
   \<and> snd (snd (find_best_dates (logged (stub_source one_row)) ((), []) 0 0 730000 730005 30 10 5)) =
       [(0, 0, 730000, 730005), (0, 0, 730000, 730004)]
   \<and> fst (find_best_dates (logged (stub_source one_row)) ((), []) 0 0 730000 730005 30 10 5) =
       (Some 730000, Some 730004)"
  using candidate_count[where ss = 730000 and se = 730005 and se' = 730005 and dur = 5
      and table = one_row and w = "()" and la = 0 and lo = 0 and hot = 30 and rain = 10]
  by (simp add: valid_date_def one_row_def candidate_offsets_def upto_from_0)

section \<open>Ties\<close>

lemma candidate_loop_keeps_best:
  assumes "\<forall>j\<in>set offs. candidate_window ss dur j = Inr (ss + j, ss + j + (dur - 1))"
    and "\<forall>j\<in>set offs. table la lo (ss + j) (ss + j + (dur - 1)) \<noteq> [] \<longrightarrow>
           best_score st \<le> enat (risk_score (table la lo (ss + j) (ss + j + (dur - 1))) hot rain)"
  shows "\<exists>st'. candidate_loop (stub_source table) la lo ss hot rain dur offs st w = (Inr st', w)
           \<and> best_start st' = best_start st \<and> best_score st' = best_score st"
  using assms
proof (induction offs arbitrary: st)
  case Nil
  show ?case by simp
next
  case (Cons j rest)
  let ?df = "table la lo (ss + j) (ss + j + (dur - 1))"
  let ?st1 = "update_best hot rain st (ss + j) ?df"
  have win: "candidate_window ss dur j = Inr (ss + j, ss + j + (dur - 1))"
    using Cons.prems(1) by simp
  have "?df \<noteq> [] \<longrightarrow> best_score st \<le> enat (risk_score ?df hot rain)"
    using Cons.prems(2) by simp
  then have keep: "best_start ?st1 = best_start st" "best_score ?st1 = best_score st"
    by (auto simp: update_best_def Let_def)
  have "\<exists>st'. candidate_loop (stub_source table) la lo ss hot rain dur rest ?st1 w = (Inr st', w)
           \<and> best_start st' = best_start ?st1 \<and> best_score st' = best_score ?st1"
    using Cons.prems keep by (intro Cons.IH) simp_all
  moreover have "stub_source table w la lo (ss + j) (ss + j + (dur - 1)) = (?df, w)"
    by (simp add: stub_source_def)
  ultimately show ?case
    using keep by (simp add: candidate_loop_step win)
qed

lemma candidate_loop_first_minimum:
  assumes "\<forall>j\<in>set (pre @ k # post). candidate_window ss dur j = Inr (ss + j, ss + j + (dur - 1))"
    and "table la lo (ss + k) (ss + k + (dur - 1)) \<noteq> []"
    and "enat (risk_score (table la lo (ss + k) (ss + k + (dur - 1))) hot rain) < best_score st"
    and "\<forall>j\<in>set pre. table la lo (ss + j) (ss + j + (dur - 1)) \<noteq> [] \<longrightarrow>
           risk_score (table la lo (ss + k) (ss + k + (dur - 1))) hot rain
           < risk_score (table la lo (ss + j) (ss + j + (dur - 1))) hot rain"
    and "\<forall>j\<in>set post. table la lo (ss + j) (ss + j + (dur - 1)) \<noteq> [] \<longrightarrow>
           risk_score (table la lo (ss + k) (ss + k + (dur - 1))) hot rain
           \<le> risk_score (table la lo (ss + j) (ss + j + (dur - 1))) hot rain"
  shows "\<exists>st'. candidate_loop (stub_source table) la lo ss hot rain dur (pre @ k # post) st w =
           (Inr st', w) \<and> best_start st' = Some (ss + k)"
  using assms
proof (induction pre arbitrary: st)
  case Nil
  let ?df = "table la lo (ss + k) (ss + k + (dur - 1))"
  let ?st1 = "update_best hot rain st (ss + k) ?df"
  have win: "candidate_window ss dur k = Inr (ss + k, ss + k + (dur - 1))"
    using Nil.prems(1) by simp
  have upd: "best_start ?st1 = Some (ss + k)" "best_score ?st1 = enat (risk_score ?df hot rain)"
    using Nil.prems(2,3) by (simp_all add: update_best_def Let_def)
  have "\<exists>st'. candidate_loop (stub_source table) la lo ss hot rain dur post ?st1 w = (Inr st', w)
           \<and> best_start st' = best_start ?st1 \<and> best_score st' = best_score ?st1"
    using Nil.prems(1,5) upd(2) by (intro candidate_loop_keeps_best) simp_all
  then obtain st' where
    "candidate_loop (stub_source table) la lo ss hot rain dur post ?st1 w = (Inr st', w)"
    "best_start st' = best_start ?st1"
    by blast
  moreover have "stub_source table w la lo (ss + k) (ss + k + (dur - 1)) = (?df, w)"
    by (simp add: stub_source_def)
  ultimately show ?case
    using upd by (simp add: candidate_loop_step win)
next
  case (Cons j pre)
  let ?dk = "table la lo (ss + k) (ss + k + (dur - 1))"
  let ?df = "table la lo (ss + j) (ss + j + (dur - 1))"
  let ?st1 = "update_best hot rain st (ss + j) ?df"
  have win: "candidate_window ss dur j = Inr (ss + j, ss + j + (dur - 1))"
    using Cons.prems(1) by simp
  have "?df \<noteq> [] \<longrightarrow> risk_score ?dk hot rain < risk_score ?df hot rain"
    using Cons.prems(4) by simp
  then have below: "enat (risk_score ?dk hot rain) < best_score ?st1"
    using Cons.prems(3) by (auto simp: update_best_def Let_def)
  have "\<exists>st'. candidate_loop (stub_source table) la lo ss hot rain dur (pre @ k # post) ?st1 w =
           (Inr st', w) \<and> best_start st' = Some (ss + k)"
    using Cons.prems below by (intro Cons.IH) simp_all
  moreover have "stub_source table w la lo (ss + j) (ss + j + (dur - 1)) = (?df, w)"
    by (simp add: stub_source_def)
  ultimately show ?case
    by (simp add: candidate_loop_step win)
qed


lemma candidate_window_end:
  "candidate_window ss dur k = Inr (a, b) \<Longrightarrow> date_plus_days a (dur - 1) = Inr b"
  by (auto simp: candidate_window_def split: sum.splits)

text \<open>
  Claim C3. The best candidate changes only on a strictly smaller score, so the window
  returned is the one of the lowest offset among the candidates of minimal score: if the
  candidate at offset \<open>k\<close> has a frame, scores no more than any candidate with a frame and
  strictly less than each such candidate at a lower offset, then the window at offset
  \<open>k\<close> is returned. (On valid dates, for an event duration of at least 1, a feasibility
  fetch that is not empty, and a source that answers from a table.)
\<close>

theorem lowest_offset_wins_ties:
  "valid_date ss \<and> valid_date se \<and> 1 \<le> dur \<and>
   se' = (if se - ss > 90 then ss + 90 else se) \<and>
   table la lo ss se' \<noteq> [] \<and>
   k \<in> set (candidate_offsets ss se' dur) \<and>
   table la lo (ss + k) (ss + k + (dur - 1)) \<noteq> [] \<and>
   (\<forall>j\<in>set (candidate_offsets ss se' dur).
      table la lo (ss + j) (ss + j + (dur - 1)) \<noteq> [] \<longrightarrow>
        risk_score (table la lo (ss + k) (ss + k + (dur - 1))) hot rain
          \<le> risk_score (table la lo (ss + j) (ss + j + (dur - 1))) hot rain
        \<and> (j < k \<longrightarrow>
             risk_score (table la lo (ss + k) (ss + k + (dur - 1))) hot rain
               < risk_score (table la lo (ss + j) (ss + j + (dur - 1))) hot rain))
   \<longrightarrow> fst (find_best_dates (stub_source table) w la lo ss se hot rain dur) =
         (Some (ss + k), Some (ss + k + (dur - 1)))"
proof
  let ?offs = "candidate_offsets ss se' dur"
  let ?score = "\<lambda>j. risk_score (table la lo (ss + j) (ss + j + (dur - 1))) hot rain"
  assume h: "valid_date ss \<and> valid_date se \<and> 1 \<le> dur \<and>
   se' = (if se - ss > 90 then ss + 90 else se) \<and>
   table la lo ss se' \<noteq> [] \<and>
   k \<in> set ?offs \<and>
   table la lo (ss + k) (ss + k + (dur - 1)) \<noteq> [] \<and>
   (\<forall>j\<in>set ?offs.
      table la lo (ss + j) (ss + j + (dur - 1)) \<noteq> [] \<longrightarrow>
        ?score k \<le> ?score j \<and> (j < k \<longrightarrow> ?score k < ?score j))"
  then have se': "se' = (if se - ss > 90 then ss + 90 else se)" by blast
  have clamp: "clamp_search_end ss se = Inr se'"
    using h clamp_search_end_valid[of ss se] by simp
  have "valid_date se'" using h by (auto simp: valid_date_def)
  then have wins: "\<forall>j\<in>set ?offs. candidate_window ss dur j = Inr (ss + j, ss + j + (dur - 1))"
    using h offsets_windows_ok by blast
  define n where "n = min (se' - ss - dur + 1) 50"
  have k: "0 \<le> k" "k \<le> n - 1"
    using h by (simp_all add: set_candidate_offsets n_def)
  have split: "?offs = [0..k - 1] @ k # [k + 1..n - 1]"
    unfolding candidate_offsets_def n_def[symmetric] using k by (rule upto_split3)
  have pre: "\<forall>j\<in>set [0..k - 1]. table la lo (ss + j) (ss + j + (dur - 1)) \<noteq> [] \<longrightarrow>
      ?score k < ?score j"
  proof
    fix j assume "j \<in> set [0..k - 1]"
    then have "j \<in> set ?offs" "j < k" by (simp_all add: split)
    then show "table la lo (ss + j) (ss + j + (dur - 1)) \<noteq> [] \<longrightarrow> ?score k < ?score j"
      using h by blast
  qed
  have post: "\<forall>j\<in>set [k + 1..n - 1]. table la lo (ss + j) (ss + j + (dur - 1)) \<noteq> [] \<longrightarrow>
      ?score k \<le> ?score j"
  proof
    fix j assume "j \<in> set [k + 1..n - 1]"
    then have "j \<in> set ?offs" by (simp add: split)
    then show "table la lo (ss + j) (ss + j + (dur - 1)) \<noteq> [] \<longrightarrow> ?score k \<le> ?score j"
      using h by blast
  qed
  have wins': "\<forall>j\<in>set ([0..k - 1] @ k # [k + 1..n - 1]).
      candidate_window ss dur j = Inr (ss + j, ss + j + (dur - 1))"
    using wins unfolding split .
  have nonempty: "table la lo (ss + k) (ss + k + (dur - 1)) \<noteq> []"
    using h by blast
  have below: "enat (?score k) < best_score initial_state"
    by (simp add: initial_state_def)
  from candidate_loop_first_minimum[where w = w and table = table and la = la and lo = lo
      and ss = ss and dur = dur and hot = hot and rain = rain and st = initial_state
      and pre = "[0..k - 1]" and k = k and post = "[k + 1..n - 1]",
      OF wins' nonempty below pre post]
  obtain st' where loop:
    "candidate_loop (stub_source table) la lo ss hot rain dur ?offs initial_state w = (Inr st', w)"
    "best_start st' = Some (ss + k)"
    unfolding split by blast
  have "k \<in> set ?offs" using h by blast
  then have "candidate_window ss dur k = Inr (ss + k, ss + k + (dur - 1))"
    using wins by blast
  then have fin: "date_plus_days (ss + k) (dur - 1) = Inr (ss + k + (dur - 1))"
    by (rule candidate_window_end)
  have feas: "stub_source table w la lo ss se' = (table la lo ss se', w)"
    by (simp add: stub_source_def)
  have "table la lo ss se' \<noteq> []" using h by blast
  then show "fst (find_best_dates (stub_source table) w la lo ss se hot rain dur) =
         (Some (ss + k), Some (ss + k + (dur - 1)))"
    by (simp add: find_best_dates_def find_best_dates_try_def clamp feas loop fin)
qed

text \<open>
  The candidates at offsets 3 and 7 both score 2 and the fourteen others score 3: the
  window at offset 3 is returned.
\<close>

theorem lowest_offset_wins_ties_witness:
  "risk_score (tie_table 0 0 730003 730007) 30 10 = 2
   \<and> risk_score (tie_table 0 0 730007 730011) 30 10 = 2
   \<and> fst (find_best_dates (stub_source tie_table) () 0 0 730000 730020 30 10 5) =
       (Some 730003, Some 730007)"
proof -
  have two: "risk_score [hot_row, rainy_row] 30 10 = 2"
    and three: "risk_score [hot_row, rainy_row, hot_row] 30 10 = 3"
    by (simp_all add: risk_score_def bool_sum_def series_gt_def hot_row_def rainy_row_def)
  have "\<forall>j\<in>set (candidate_offsets 730000 730020 5).
      tie_table 0 0 (730000 + j) (730000 + j + (5 - 1)) \<noteq> [] \<longrightarrow>
        risk_score (tie_table 0 0 (730000 + 3) (730000 + 3 + (5 - 1))) 30 10
          \<le> risk_score (tie_table 0 0 (730000 + j) (730000 + j + (5 - 1))) 30 10
        \<and> (j < 3 \<longrightarrow>
             risk_score (tie_table 0 0 (730000 + 3) (730000 + 3 + (5 - 1))) 30 10
               < risk_score (tie_table 0 0 (730000 + j) (730000 + j + (5 - 1))) 30 10)"
    by (auto simp: tie_table_def two three)
  then show ?thesis
    using lowest_offset_wins_ties[where ss = 730000 and se = 730020 and se' = 730020
        and dur = 5 and table = tie_table and la = 0 and lo = 0 and k = 3 and hot = 30
        and rain = 10 and w = "()"]
    by (simp add: valid_date_def set_candidate_offsets tie_table_def two)
qed

section \<open>Determinism\<close>

text \<open>
  Claim C9. The result of \<open>find_best_dates\<close> depends on its arguments and on the frames
  the source returns, and on nothing else: two sources that answer every request from the
  same table, whatever hidden state each of them starts in and however it changes it,
  give the same result on the same arguments.
\<close>

theorem find_best_dates_deterministic:
  "(\<forall>w la lo a b. fst (fetch1 w la lo a b) = table la lo a b) \<and>
   (\<forall>w la lo a b. fst (fetch2 w la lo a b) = table la lo a b) \<longrightarrow>
   fst (find_best_dates fetch1 w1 la lo ss se hot rain dur) =
   fst (find_best_dates fetch2 w2 la lo ss se hot rain dur)"
proof
  assume h: "(\<forall>w la lo a b. fst (fetch1 w la lo a b) = table la lo a b) \<and>
   (\<forall>w la lo a b. fst (fetch2 w la lo a b) = table la lo a b)"
  then have same: "\<And>w1 w2 la lo a b. fst (fetch1 w1 la lo a b) = fst (fetch2 w2 la lo a b)"
    by simp
  show "fst (find_best_dates fetch1 w1 la lo ss se hot rain dur) =
        fst (find_best_dates fetch2 w2 la lo ss se hot rain dur)"
  proof (cases "clamp_search_end ss se")
    case (Inl e)
    then show ?thesis by (simp add: find_best_dates_def find_best_dates_try_def)
  next
    case (Inr se')
    obtain df1 v1 where f1: "fetch1 w1 la lo ss se' = (df1, v1)" by (cases "fetch1 w1 la lo ss se'")
    obtain df2 v2 where f2: "fetch2 w2 la lo ss se' = (df2, v2)" by (cases "fetch2 w2 la lo ss se'")
    have df: "df1 = df2" using same[of w1 la lo ss se' w2] f1 f2 by simp
    obtain r1 u1 where l1: "candidate_loop fetch1 la lo ss hot rain dur
        (candidate_offsets ss se' dur) initial_state v1 = (r1, u1)" by (metis surj_pair)
    obtain r2 u2 where l2: "candidate_loop fetch2 la lo ss hot rain dur
        (candidate_offsets ss se' dur) initial_state v2 = (r2, u2)" by (metis surj_pair)
    have "r1 = r2"
      using candidate_loop_same_answers[of fetch1 fetch2 la lo ss hot rain dur
          "candidate_offsets ss se' dur" initial_state v1 v2, OF same] l1 l2 by simp
    then show ?thesis
      using Inr f1 f2 df l1 l2
      by (simp add: find_best_dates_def find_best_dates_try_def
          split: sum.splits option.splits)
  qed
qed

text \<open>
  A source without state and a source that starts with a request already in its log and
  records every further one give the same result.
\<close>

theorem find_best_dates_deterministic_witness:
  "fst (find_best_dates (stub_source tie_table) () 0 0 730000 730020 30 10 5) =
   fst (find_best_dates (logged (stub_source tie_table)) ((), [(9, 9, 1, 2)])
          0 0 730000 730020 30 10 5)"
proof -
  have "\<forall>w la lo a b. fst (stub_source tie_table (w::unit) la lo a b) = tie_table la lo a b"
    by (simp add: stub_source_def)
  moreover have "\<forall>w la lo a b.
      fst (logged (stub_source tie_table) (w::unit \<times> call list) la lo a b) = tie_table la lo a b"
    by (simp add: logged_def stub_source_def split: prod.splits)
  ultimately show ?thesis
    using find_best_dates_deterministic[where ?fetch1.0 = "stub_source tie_table"
        and ?fetch2.0 = "logged (stub_source tie_table)" and table = tie_table
        and ?w1.0 = "()" and ?w2.0 = "((), [(9, 9, 1, 2)])" and la = 0 and lo = 0
        and ss = 730000 and se = 730020 and hot = 30 and rain = 10 and dur = 5]
    by blast
qed

end
